theory Spec2Isabelle
  imports Main "HOL-Library.AList" "HOL-Library.Stream"
begin

section \<open>Data model\<close>

text \<open>
  The file \<^verbatim>\<open>lib/http-users/user/tokens.js\<close> extends the \<^verbatim>\<open>User\<close> resource with
  three operations on the \<^verbatim>\<open>apiTokens\<close> object of a user document and adds the
  routes that expose them.
\<close>

subsection \<open>Plain JavaScript objects\<close>

text \<open>
  A plain object is the list of its own properties in enumeration order, the order in
  which \<^verbatim>\<open>for (var key in obj)\<close> visits them: the array indices first, ascending,
  then the other names in the order of their creation. The prototype of every object
  here is \<^verbatim>\<open>Object.prototype\<close>, whose properties are not enumerable: eleven methods
  and the accessor \<^verbatim>\<open>__proto__\<close>.
\<close>

datatype jsval = JUndefined | JString string | JFunction | JObject

definition Object_prototype_methods :: "string list" where
  "Object_prototype_methods =
     [''constructor'', ''hasOwnProperty'', ''isPrototypeOf'', ''propertyIsEnumerable'',
      ''toLocaleString'', ''toString'', ''valueOf'', ''__defineGetter__'', ''__defineSetter__'',
      ''__lookupGetter__'', ''__lookupSetter__'']"

text \<open>
  A property name is an array index when it is the canonical decimal form of an integer
  from \<open>0\<close> to \<open>2\<^sup>3\<^sup>2 - 2\<close>.
\<close>

definition decimal :: "string \<Rightarrow> nat" where
  "decimal k = foldl (\<lambda>a c. 10 * a + (of_char c - 48)) 0 k"

definition array_index :: "string \<Rightarrow> nat option" where
  "array_index k =
     (if k \<noteq> [] \<and> list_all (\<lambda>c. c \<in> set ''0123456789'') k \<and> (k = ''0'' \<or> hd k \<noteq> CHR ''0'') \<and>
         decimal k < 2 ^ 32 - 1
      then Some (decimal k) else None)"

text \<open>
  \<^verbatim>\<open>obj[k]\<close> for an object whose own properties hold strings: the own property, else
  the property inherited from \<^verbatim>\<open>Object.prototype\<close> (\<^verbatim>\<open>obj.__proto__\<close> is that
  prototype itself), else \<^verbatim>\<open>undefined\<close>.
\<close>

definition js_get :: "(string \<times> string) list \<Rightarrow> string \<Rightarrow> jsval" where
  "js_get obj k =
     (case map_of obj k of
        Some v \<Rightarrow> JString v
      | None \<Rightarrow>
          if k = ''__proto__'' then JObject
          else if k \<in> set Object_prototype_methods then JFunction
          else JUndefined)"

text \<open>A new array index takes its place among the array indices.\<close>

fun insert_index :: "nat \<Rightarrow> string \<Rightarrow> 'v \<Rightarrow> (string \<times> 'v) list \<Rightarrow> (string \<times> 'v) list" where
  "insert_index n k v [] = [(k, v)]"
| "insert_index n k v ((k', v') # rest) =
     (case array_index k' of
        Some n' \<Rightarrow> if n' < n then (k', v') # insert_index n k v rest else (k, v) # (k', v') # rest
      | None \<Rightarrow> (k, v) # (k', v') # rest)"

text \<open>
  \<^verbatim>\<open>obj[k] = v\<close>. An own property keeps its place and takes the value. Otherwise
  the name \<^verbatim>\<open>__proto__\<close> reaches the inherited setter, which creates no property: it
  ignores a primitive value, and the only object assigned under that name here is
  \<^verbatim>\<open>Object.prototype\<close>, which is the prototype already. Any other name becomes a new
  own property.
\<close>

definition js_set :: "string \<Rightarrow> 'v \<Rightarrow> (string \<times> 'v) list \<Rightarrow> (string \<times> 'v) list" where
  "js_set k v obj =
     (if k \<in> fst ` set obj then AList.update k v obj
      else if k = ''__proto__'' then obj
      else (case array_index k of
              Some n \<Rightarrow> insert_index n k v obj
            | None \<Rightarrow> obj @ [(k, v)]))"

text \<open>\<^verbatim>\<open>!v\<close> and \<^verbatim>\<open>typeof v === "string"\<close>.\<close>

definition falsy :: "jsval \<Rightarrow> bool" where
  "falsy v = (case v of JUndefined \<Rightarrow> True | JString x \<Rightarrow> x = [] | JFunction \<Rightarrow> False | JObject \<Rightarrow> False)"

definition typeof_string :: "jsval \<Rightarrow> bool" where
  "typeof_string v = (case v of JString x \<Rightarrow> True | _ \<Rightarrow> False)"

subsection \<open>Documents, errors, the store\<close>

text \<open>
  The token map of a user: an object whose own properties hold the token values, which
  are strings. \<^verbatim>\<open>delete obj[k]\<close> is \<open>AList.delete k obj\<close>.
\<close>

type_synonym token_map = "(string \<times> string) list"

text \<open>
  A user document: the \<^verbatim>\<open>apiTokens\<close> field, which a document need not have
  (\<open>None\<close>), and the remaining fields (password, email, ...), which this file never
  reads.
\<close>

record user =
  apiTokens :: "token_map option"
  attrs :: "(string \<times> string) list"

text \<open>
  The object passed to \<^verbatim>\<open>User.update\<close>: the fields it names. \<open>set_apiTokens\<close> is
  \<open>None\<close> when the object has no \<^verbatim>\<open>apiTokens\<close> property.
\<close>

record patch =
  set_apiTokens :: "token_map option"
  set_attrs :: "(string \<times> string) list"


datatype error = NotFound | StorageError | TokenNotFound

text \<open>
  How a call of one of the three operations ends: the continuation is called with an
  error (\<open>Failed\<close>), it is called without one (\<open>Succeeded\<close>), or a \<^verbatim>\<open>TypeError\<close>
  is thrown inside the \<^verbatim>\<open>User.get\<close> continuation and the caller's continuation is
  never called (\<open>Threw\<close>).
\<close>

datatype 'a outcome = Failed error | Succeeded 'a | Threw

text \<open>
  The store behind the \<^verbatim>\<open>User\<close> resource: the documents by user name, whether the
  persistence layer currently rejects writes, and the journal of the calls of
  \<^verbatim>\<open>User.update\<close> made so far (user name and the object passed).
\<close>

record store =
  users :: "string \<rightharpoonup> user"
  failing :: bool
  writes :: "(string \<times> patch) list"

text \<open>
  The two random sources: the successive values of \<^verbatim>\<open>~~(Math.random() * 1e9)\<close>
  (the product lies in \<open>[0, 10\<^sup>9)\<close> and \<^verbatim>\<open>~~\<close> truncates it, so each value is a
  natural number below \<open>10\<^sup>9\<close>) and the successive results of \<^verbatim>\<open>uuid.v4()\<close>.
\<close>

record rng =
  randoms :: "nat stream"
  uuids :: "string stream"

definition Math_random_1e9 :: "rng \<Rightarrow> nat \<times> rng" where
  "Math_random_1e9 g = (shd (randoms g), g\<lparr>randoms := stl (randoms g)\<rparr>)"

definition uuid_v4 :: "rng \<Rightarrow> string \<times> rng" where
  "uuid_v4 g = (shd (uuids g), g\<lparr>uuids := stl (uuids g)\<rparr>)"

text \<open>\<^verbatim>\<open>n.toString(36)\<close> for a non-negative integer \<open>n\<close>.\<close>

definition digit36 :: "nat \<Rightarrow> char" where
  "digit36 d = ''0123456789abcdefghijklmnopqrstuvwxyz'' ! d"

function toString36 :: "nat \<Rightarrow> string" where
  "toString36 n = (if n < 36 then [digit36 n] else toString36 (n div 36) @ [digit36 (n mod 36)])"
  by pat_completeness auto
termination
  by (relation "measure (\<lambda>n. n)") auto

declare toString36.simps [simp del]

text \<open>\<^verbatim>\<open>parseInt(k, 36)\<close> for a string of base-36 digits, the inverse of the above.\<close>

definition digit36_value :: "char \<Rightarrow> nat" where
  "digit36_value c = length (takeWhile (\<lambda>d. d \<noteq> c) ''0123456789abcdefghijklmnopqrstuvwxyz'')"

definition parseInt36 :: "string \<Rightarrow> nat" where
  "parseInt36 k = foldl (\<lambda>a c. 36 * a + digit36_value c) 0 k"

section \<open>The store\<close>

text \<open>
  \<^verbatim>\<open>User.get\<close> and \<^verbatim>\<open>User.update\<close> belong to the resource layer, which is not part
  of the source at hand; the three definitions below follow the specification's
  description of the store.
\<close>

text \<open>
  Modelled from the spec: \<^verbatim>\<open>User.get\<close>, missing from the source.
  \<open>get(accountName)\<close> gives the account or fails with \<open>NotFound\<close>.
\<close>

definition User_get :: "string \<Rightarrow> store \<Rightarrow> error + user" where
  "User_get username s =
     (case users s username of None \<Rightarrow> Inl NotFound | Some u \<Rightarrow> Inr u)"

text \<open>
  Modelled from the spec: the merge that \<^verbatim>\<open>User.update\<close>, missing from the source,
  performs. The given fields overwrite those of the stored account; the others stay.
\<close>

definition merge_patch :: "patch \<Rightarrow> user \<Rightarrow> user" where
  "merge_patch p u =
     \<lparr> apiTokens = (case set_apiTokens p of None \<Rightarrow> apiTokens u | Some m \<Rightarrow> Some m),
       attrs = fold (\<lambda>(k, v). AList.update k v) (set_attrs p) (attrs u) \<rparr>"

text \<open>
  Modelled from the spec: \<^verbatim>\<open>User.update\<close>, missing from the source.
  \<open>update(accountName, partialFields)\<close> merges the given fields into the stored
  account, or fails with \<open>StorageError\<close> (the persistence layer rejects the write) or
  with \<open>NotFound\<close> (no such account). Every call is entered in the journal.
\<close>

definition User_update :: "string \<Rightarrow> patch \<Rightarrow> store \<Rightarrow> error option \<times> store" where
  "User_update username p s =
     (let s' = s\<lparr>writes := writes s @ [(username, p)]\<rparr>
      in if failing s then (Some StorageError, s')
         else (case users s username of
                 None \<Rightarrow> (Some NotFound, s')
               | Some u \<Rightarrow> (None, s'\<lparr>users := (users s)(username \<mapsto> merge_patch p u)\<rparr>)))"

section \<open>The resource extensions\<close>

text \<open>\<^verbatim>\<open>user.apiTokens || {}\<close>: an object is truthy, also the empty one.\<close>

definition apiTokens_or_empty :: "user \<Rightarrow> token_map" where
  "apiTokens_or_empty u = (case apiTokens u of None \<Rightarrow> [] | Some m \<Rightarrow> m)"

text \<open>
  \<^verbatim>\<open>User.tokens\<close>: the result is the object \<^verbatim>\<open>{apiTokens: apiTokens}\<close>; the model
  returns its one field.
\<close>

definition tokens :: "string \<Rightarrow> store \<Rightarrow> token_map outcome \<times> store" where
  "tokens username s =
     (case User_get username s of
        Inl err \<Rightarrow> (Failed err, s)
      | Inr u \<Rightarrow> (Succeeded (apiTokens_or_empty u), s))"

text \<open>
  \<^verbatim>\<open>User.deleteToken\<close>. \<^verbatim>\<open>user.apiTokens\<close> is read with no fallback, so on a
  document without the field \<^verbatim>\<open>apiTokens[tokenname]\<close> throws. The test
  \<^verbatim>\<open>!apiTokens[tokenname]\<close> sees inherited properties too.
\<close>

definition deleteToken :: "string \<Rightarrow> string \<Rightarrow> store \<Rightarrow> unit outcome \<times> store" where
  "deleteToken username tokenname s =
     (case User_get username s of
        Inl err \<Rightarrow> (Failed err, s)
      | Inr u \<Rightarrow>
          (case apiTokens u of
             None \<Rightarrow> (Threw, s)
           | Some m \<Rightarrow>
               if falsy (js_get m tokenname) then (Failed TokenNotFound, s)
               else (case User_update username
                            \<lparr> set_apiTokens = Some (AList.delete tokenname m), set_attrs = [] \<rparr> s of
                       (Some err, s') \<Rightarrow> (Failed err, s')
                     | (None, s') \<Rightarrow> (Succeeded (), s'))))"

text \<open>
  The collision loop of \<^verbatim>\<open>User.addToken\<close>:
  \<^verbatim>\<open>for (var key in apiTokens) { if (apiTokens[key] === token) { token = uuid.v4(); } }\<close>
\<close>

fun detect_collisions :: "token_map \<Rightarrow> string \<Rightarrow> rng \<Rightarrow> string \<times> rng" where
  "detect_collisions [] token g = (token, g)"
| "detect_collisions ((key, v) # rest) token g =
     (if v = token
      then (case uuid_v4 g of (token', g') \<Rightarrow> detect_collisions rest token' g')
      else detect_collisions rest token g)"

text \<open>
  The values the loop draws, in the order drawn, given the candidate it starts with and
  the values \<^verbatim>\<open>uuid.v4()\<close> is going to return.
\<close>

fun replacement_draws :: "token_map \<Rightarrow> string \<Rightarrow> string stream \<Rightarrow> string list" where
  "replacement_draws [] token us = []"
| "replacement_draws ((key, v) # rest) token us =
     (if v = token
      then shd us # replacement_draws rest (shd us) (stl us)
      else replacement_draws rest token us)"

text \<open>
  \<^verbatim>\<open>User.addToken\<close>. The token name is \<open>None\<close> when the caller passes the
  continuation in its place. The result \<^verbatim>\<open>newToken\<close> is an object: the property
  \<^verbatim>\<open>operation\<close> is assigned first and the property named by the token after the
  write.
\<close>

definition addToken ::
  "string \<Rightarrow> string option \<Rightarrow> rng \<Rightarrow> store \<Rightarrow> (string \<times> string) list outcome \<times> rng \<times> store" where
  "addToken username tokenname_arg g s =
     (case (case tokenname_arg of
              None \<Rightarrow> (case Math_random_1e9 g of (r, g') \<Rightarrow> (''gen_'' @ toString36 r, g'))
            | Some n \<Rightarrow> (n, g)) of
        (tokenname, g1) \<Rightarrow>
     (case uuid_v4 g1 of
        (token, g2) \<Rightarrow>
     (case User_get username s of
        Inl err \<Rightarrow> (Failed err, g2, s)
      | Inr u \<Rightarrow>
          (let m = apiTokens_or_empty u
           in case detect_collisions m token g2 of
                (token', g3) \<Rightarrow>
                  (let newToken =
                         js_set ''operation''
                           (if typeof_string (js_get m tokenname) then ''update'' else ''insert'') [];
                       m' = js_set tokenname token' m
                   in case User_update username \<lparr> set_apiTokens = Some m', set_attrs = [] \<rparr> s of
                        (Some err, s') \<Rightarrow> (Failed err, g3, s')
                      | (None, s') \<Rightarrow>
                          (Succeeded (js_set tokenname token' newToken), g3, s'))))))"

section \<open>The routes\<close>

text \<open>\<^verbatim>\<open>this.req.user.authMethod\<close>, with its properties \<^verbatim>\<open>method\<close> (\<open>auth_method\<close>) and \<^verbatim>\<open>id\<close> (\<open>idFromAuth\<close>).\<close>

record authMethod =
  auth_method :: string
  idFromAuth :: string

text \<open>
  What a handler passes to \<^verbatim>\<open>res.json\<close>. In the token listing a property holds
  whatever \<^verbatim>\<open>tokens.apiTokens[idFromAuth]\<close> gave. \<open>Uncaught\<close>: the handler's continuation threw or
  was never called, and no response was written.
\<close>

datatype body =
    ErrorBody error
  | TokensBody "(string \<times> jsval) list"
  | DeletedBody bool string
  | NewTokenBody "(string \<times> string) list"

datatype response = Json nat body | Uncaught

text \<open>\<^verbatim>\<open>GET /users/:username/tokens\<close>\<close>

definition get_route :: "string \<Rightarrow> authMethod \<Rightarrow> store \<Rightarrow> response \<times> store" where
  "get_route username auth s =
     (case tokens username s of
        (r, s') \<Rightarrow>
          if auth_method auth \<noteq> ''username/password''
          then (case r of
                  Succeeded m \<Rightarrow>
                    (Json 200 (TokensBody (js_set (idFromAuth auth) (js_get m (idFromAuth auth)) [])),
                     s')
                | Failed err \<Rightarrow> (Uncaught, s')
                | Threw \<Rightarrow> (Uncaught, s'))
          else (case r of
                  Failed err \<Rightarrow> (Json 500 (ErrorBody err), s')
                | Succeeded m \<Rightarrow> (Json 200 (TokensBody (map (\<lambda>(k, v). (k, JString v)) m)), s')
                | Threw \<Rightarrow> (Uncaught, s')))"

text \<open>\<^verbatim>\<open>DELETE /users/:username/tokens/:tokenname\<close>\<close>

definition delete_route :: "string \<Rightarrow> string \<Rightarrow> store \<Rightarrow> response \<times> store" where
  "delete_route username tokenname s =
     (case deleteToken username tokenname s of
        (Failed err, s') \<Rightarrow> (Json 500 (ErrorBody err), s')
      | (Succeeded u, s') \<Rightarrow> (Json 201 (DeletedBody True tokenname), s')
      | (Threw, s') \<Rightarrow> (Uncaught, s'))"

text \<open>
  \<^verbatim>\<open>addOrUpdateToken\<close>, the handler of \<^verbatim>\<open>PUT /users/:username/tokens/:tokenname\<close>
  and of \<^verbatim>\<open>POST /users/:username/tokens\<close>; the token name is \<open>None\<close> when the
  handler is called with two arguments.
\<close>

definition addOrUpdateToken ::
  "string \<Rightarrow> string option \<Rightarrow> rng \<Rightarrow> store \<Rightarrow> response \<times> rng \<times> store" where
  "addOrUpdateToken username tokenname_arg g s =
     (case (case tokenname_arg of
              None \<Rightarrow> (case Math_random_1e9 g of (r, g') \<Rightarrow> (''token_'' @ toString36 r, g'))
            | Some n \<Rightarrow> (n, g)) of
        (tokenname, g1) \<Rightarrow>
          (case addToken username (Some tokenname) g1 s of
             (Failed err, g2, s') \<Rightarrow> (Json 500 (ErrorBody err), g2, s')
           | (Succeeded newToken, g2, s') \<Rightarrow> (Json 201 (NewTokenBody newToken), g2, s')
           | (Threw, g2, s') \<Rightarrow> (Uncaught, g2, s')))"

section \<open>Example data\<close>

text \<open>
  A store with two users, as the tests of the repository create them: \<open>charlie\<close>
  has no \<^verbatim>\<open>apiTokens\<close> field yet, \<open>juan\<close> holds two tokens. The random sources
  give fixed values.
\<close>

definition uuid_a :: string where
  "uuid_a = ''110ec58a-a0f2-4ac4-8393-c866d813b8d1''"

definition uuid_b :: string where
  "uuid_b = ''6c84fb90-12c4-41e1-840b-4e4d8e7a9f3c''"

definition uuid_c :: string where
  "uuid_c = ''f47ac10b-58cc-4372-a567-0e02b2c3d479''"

definition uuid_d :: string where
  "uuid_d = ''9b2e4c1a-7d3f-4e6b-b8a5-3c1d2e4f5a6b''"

definition charlie :: user where
  "charlie = \<lparr> apiTokens = None, attrs = [(''email'', ''foo@bar.com'')] \<rparr>"

definition juan :: user where
  "juan = \<lparr> apiTokens = Some [(''ci'', uuid_a), (''laptop'', uuid_b)],
            attrs = [(''email'', ''foo@bar.com'')] \<rparr>"

definition store0 :: store where
  "store0 = \<lparr> users = [''charlie'' \<mapsto> charlie, ''juan'' \<mapsto> juan],
              failing = False, writes = [] \<rparr>"

definition rng0 :: rng where
  "rng0 = \<lparr> randoms = sconst 123456789, uuids = uuid_b ## uuid_a ## sconst uuid_c \<rparr>"

definition rng1 :: rng where
  "rng1 = \<lparr> randoms = sconst 123456789, uuids = uuid_b ## sconst uuid_c \<rparr>"


section \<open>Facts about objects\<close>

lemma js_get_own: "map_of obj k = Some v \<Longrightarrow> js_get obj k = JString v"
  by (simp add: js_get_def)

lemma js_get_absent:
  "k \<notin> fst ` set obj \<Longrightarrow>
   js_get obj k =
     (if k = ''__proto__'' then JObject
      else if k \<in> set Object_prototype_methods then JFunction else JUndefined)"
  by (simp add: js_get_def map_of_eq_None_iff [THEN iffD2])

lemma typeof_string_key: "typeof_string (js_get obj k) \<longleftrightarrow> k \<in> fst ` set obj"
proof (cases "map_of obj k")
  case None
  then have "k \<notin> fst ` set obj" by (simp add: map_of_eq_None_iff)
  with None show ?thesis by (simp add: typeof_string_def js_get_def)
next
  case (Some v)
  then have "k \<in> fst ` set obj" by (metis map_of_eq_None_iff option.distinct(1))
  with Some show ?thesis by (simp add: typeof_string_def js_get_def)
qed

lemma falsy_absent:
  "k \<notin> fst ` set obj \<Longrightarrow> k \<notin> set Object_prototype_methods \<Longrightarrow> k \<noteq> ''__proto__'' \<Longrightarrow>
   falsy (js_get obj k)"
  by (simp add: js_get_absent falsy_def)

lemma truthy_inherited:
  "k \<notin> fst ` set obj \<Longrightarrow> k \<in> set Object_prototype_methods \<or> k = ''__proto__'' \<Longrightarrow>
   \<not> falsy (js_get obj k)"
  by (auto simp: js_get_absent falsy_def)

lemma set_insert_index: "set (insert_index n k v obj) = insert (k, v) (set obj)"
  by (induction obj) (auto split: option.splits if_splits)

lemma map_of_insert_index:
  "k \<notin> fst ` set obj \<Longrightarrow> map_of (insert_index n k v obj) = (map_of obj)(k \<mapsto> v)"
proof (induction obj)
  case Nil
  then show ?case by simp
next
  case (Cons e obj)
  obtain k' v' where e: "e = (k', v')" by (cases e)
  have "k \<noteq> k'" and "k \<notin> fst ` set obj" using Cons.prems e by auto
  then show ?case using Cons.IH e by (auto simp: fun_upd_twist split: option.splits)
qed

lemma update_absent: "k \<notin> fst ` set obj \<Longrightarrow> AList.update k v obj = obj @ [(k, v)]"
  by (induction obj) auto

lemma map_of_snoc: "k \<notin> fst ` set obj \<Longrightarrow> map_of (obj @ [(k, v)]) = (map_of obj)(k \<mapsto> v)"
  using update_conv' [of k v obj] by (simp add: update_absent)

lemma js_set_plain:
  "array_index k = None \<Longrightarrow> k \<noteq> ''__proto__'' \<Longrightarrow> js_set k v obj = AList.update k v obj"
  by (simp add: js_set_def update_absent)


lemma js_set_proto: "''__proto__'' \<notin> fst ` set obj \<Longrightarrow> js_set ''__proto__'' v obj = obj"
  by (simp add: js_set_def)

lemma map_of_js_set:
  "k \<noteq> ''__proto__'' \<Longrightarrow> map_of (js_set k v obj) = (map_of obj)(k \<mapsto> v)"
  by (auto simp: js_set_def update_conv' map_of_insert_index map_of_snoc simp del: map_of_append
      split: option.splits)



lemma values_update_subset: "snd ` set (AList.update k v obj) \<subseteq> insert v (snd ` set obj)"
  by (induction obj) auto

lemma values_js_set_subset: "snd ` set (js_set k v obj) \<subseteq> insert v (snd ` set obj)"
  using values_update_subset [of k v obj]
  by (auto simp: js_set_def set_insert_index split: option.splits)



lemma distinct_values_update:
  "distinct (map snd obj) \<Longrightarrow> t \<notin> snd ` set obj \<Longrightarrow> distinct (map snd (AList.update k t obj))"
proof (induction obj)
  case Nil
  then show ?case by simp
next
  case (Cons e obj)
  obtain a b where e: "e = (a, b)" by (cases e)
  show ?case
  proof (cases "a = k")
    case True
    then show ?thesis using Cons.prems e by auto
  next
    case False
    have "b \<notin> snd ` set (AList.update k t obj)"
      using values_update_subset [of k t obj] Cons.prems e by auto
    then show ?thesis using False Cons e by auto
  qed
qed

lemma distinct_values_insert_index:
  "distinct (map snd obj) \<Longrightarrow> t \<notin> snd ` set obj \<Longrightarrow> distinct (map snd (insert_index n k t obj))"
proof (induction obj)
  case Nil
  then show ?case by simp
next
  case (Cons e obj)
  obtain a b where e: "e = (a, b)" by (cases e)
  have "b \<notin> snd ` set (insert_index n k t obj)"
    using Cons.prems e by (auto simp: set_insert_index)
  then show ?case using Cons e by (auto split: option.splits)
qed

lemma distinct_values_js_set:
  "distinct (map snd obj) \<Longrightarrow> t \<notin> snd ` set obj \<Longrightarrow> distinct (map snd (js_set k t obj))"
  by (auto simp: js_set_def distinct_values_update distinct_values_insert_index split: option.splits)


text \<open>The names generated by this file are neither array indices nor \<^verbatim>\<open>__proto__\<close>.\<close>

lemma array_index_letter: "c \<notin> set ''0123456789'' \<Longrightarrow> array_index (c # k) = None"
  by (simp add: array_index_def)

section \<open>Facts about the store and the example data\<close>

lemma users_store0 [simp]:
  "users store0 ''charlie'' = Some charlie" "users store0 ''juan'' = Some juan"
  "users store0 ''ghost'' = None" "failing store0 = False" "writes store0 = []"
  by (simp_all add: store0_def)

lemma uuids_differ [simp]:
  "uuid_a \<noteq> uuid_b" "uuid_b \<noteq> uuid_c" "uuid_a \<noteq> uuid_c"
  "uuid_b \<noteq> uuid_a" "uuid_c \<noteq> uuid_b" "uuid_c \<noteq> uuid_a"
  "uuid_d \<noteq> uuid_a" "uuid_d \<noteq> uuid_b" "uuid_d \<noteq> uuid_c"
  "uuid_a \<noteq> uuid_d" "uuid_b \<noteq> uuid_d" "uuid_c \<noteq> uuid_d"
  by (simp_all add: uuid_a_def uuid_b_def uuid_c_def uuid_d_def)

lemma User_update_ok:
  "users s username = Some u \<Longrightarrow> \<not> failing s \<Longrightarrow>
   User_update username p s =
     (None, s\<lparr>writes := writes s @ [(username, p)],
              users := (users s)(username \<mapsto> merge_patch p u)\<rparr>)"
  by (simp add: User_update_def Let_def)



lemma merge_tokens_only:
  "merge_patch \<lparr> set_apiTokens = Some m, set_attrs = [] \<rparr> u = u\<lparr>apiTokens := Some m\<rparr>"
  by (simp add: merge_patch_def)

section \<open>Listing the tokens\<close>

lemma tokens_missing: "users s username = None \<Longrightarrow> tokens username s = (Failed NotFound, s)"
  by (simp add: tokens_def User_get_def)

lemma tokens_present:
  "users s username = Some u \<Longrightarrow> tokens username s = (Succeeded (apiTokens_or_empty u), s)"
  by (simp add: tokens_def User_get_def)

text \<open>
  C7. For every account name, \<^verbatim>\<open>User.tokens\<close> fails with \<open>NotFound\<close> exactly when
  the account does not exist. When the account exists the call succeeds with the
  account's token map, the empty map when the document has no \<^verbatim>\<open>apiTokens\<close> field.
  In both cases the store is returned as it was: no document changes and
  \<^verbatim>\<open>User.update\<close> is not called.
\<close>

theorem list_tokens:
  "(fst (tokens username s) = Failed NotFound \<longleftrightarrow> users s username = None) \<and>
   (\<forall>u. users s username = Some u \<longrightarrow>
      fst (tokens username s) = Succeeded (apiTokens_or_empty u) \<and>
      (apiTokens u = None \<longrightarrow> fst (tokens username s) = Succeeded [])) \<and>
   snd (tokens username s) = s"
  by (cases "users s username") (simp_all add: tokens_missing tokens_present apiTokens_or_empty_def)

theorem list_tokens_witness:
  "tokens ''charlie'' store0 = (Succeeded [], store0) \<and>
   tokens ''juan'' store0 = (Succeeded [(''ci'', uuid_a), (''laptop'', uuid_b)], store0) \<and>
   tokens ''ghost'' store0 = (Failed NotFound, store0)"
  using list_tokens [of "''charlie''" store0] list_tokens [of "''juan''" store0]
    list_tokens [of "''ghost''" store0]
  by (simp add: charlie_def juan_def prod_eq_iff apiTokens_or_empty_def)

lemma js_set_empty: "k \<noteq> ''__proto__'' \<Longrightarrow> js_set k v [] = [(k, v)]"
  by (simp add: js_set_def split: option.splits)

text \<open>
  C2, as amended. When the account exists, the caller did not authenticate with
  \<^verbatim>\<open>"username/password"\<close> and the name of the token it authenticated with is not
  \<^verbatim>\<open>__proto__\<close>, the handler of \<^verbatim>\<open>GET /users/:username/tokens\<close> answers 200 with a
  token object of exactly one property, named by that token, however many tokens the
  account holds. Its value is the stored value of that token; when the account has no
  token of that name it is \<^verbatim>\<open>undefined\<close>, except that for the name of a method of
  \<^verbatim>\<open>Object.prototype\<close> it is the inherited function.
\<close>

theorem get_route_filtered:
  "users s username = Some u \<Longrightarrow> auth_method auth \<noteq> ''username/password'' \<Longrightarrow>
   idFromAuth auth \<noteq> ''__proto__'' \<Longrightarrow>
   get_route username auth s =
     (Json 200 (TokensBody
        [(idFromAuth auth,
          case map_of (apiTokens_or_empty u) (idFromAuth auth) of
            Some v \<Rightarrow> JString v
          | None \<Rightarrow>
              if idFromAuth auth \<in> set Object_prototype_methods then JFunction else JUndefined)]),
      s)"
  by (simp add: get_route_def tokens_present js_set_empty js_get_def)

theorem get_route_filtered_witness:
  "users store0 ''juan'' = Some juan \<and> ''token'' \<noteq> ''username/password'' \<and>
   ''laptop'' \<noteq> ''__proto__'' \<and> ''revoked'' \<noteq> ''__proto__'' \<and>
   length (apiTokens_or_empty juan) = 2 \<and>
   get_route ''juan'' \<lparr> auth_method = ''token'', idFromAuth = ''laptop'' \<rparr> store0 =
     (Json 200 (TokensBody [(''laptop'', JString uuid_b)]), store0) \<and>
   get_route ''juan'' \<lparr> auth_method = ''token'', idFromAuth = ''revoked'' \<rparr> store0 =
     (Json 200 (TokensBody [(''revoked'', JUndefined)]), store0)"
  using get_route_filtered [of store0 "''juan''" juan "\<lparr> auth_method = ''token'', idFromAuth = ''laptop'' \<rparr>"]
    get_route_filtered [of store0 "''juan''" juan "\<lparr> auth_method = ''token'', idFromAuth = ''revoked'' \<rparr>"]
  by (simp add: juan_def apiTokens_or_empty_def Object_prototype_methods_def)

text \<open>
  C2 as stated fails for names that \<^verbatim>\<open>Object.prototype\<close> defines. For a caller whose
  token name is \<^verbatim>\<open>__proto__\<close> the assignment to the filtered object creates no
  property, so the object returned has no entry. For the name \<^verbatim>\<open>constructor\<close>, which
  is not a token of \<open>juan\<close>, the one entry holds the inherited function, not
  \<^verbatim>\<open>undefined\<close>.
\<close>

theorem get_route_inherited_names:
  "get_route ''juan'' \<lparr> auth_method = ''token'', idFromAuth = ''__proto__'' \<rparr> store0 =
     (Json 200 (TokensBody []), store0) \<and>
   map_of (apiTokens_or_empty juan) ''constructor'' = None \<and>
   get_route ''juan'' \<lparr> auth_method = ''token'', idFromAuth = ''constructor'' \<rparr> store0 =
     (Json 200 (TokensBody [(''constructor'', JFunction)]), store0)"
  by (simp add: get_route_def tokens_present [of store0 _ juan] juan_def apiTokens_or_empty_def
      js_set_def js_get_def Object_prototype_methods_def array_index_def)

lemma get_route_missing_filtered:
  "users s username = None \<Longrightarrow> auth_method auth \<noteq> ''username/password'' \<Longrightarrow>
   get_route username auth s = (Uncaught, s)"
  by (simp add: get_route_def tokens_missing)

lemma get_route_missing_password:
  "users s username = None \<Longrightarrow> auth_method auth = ''username/password'' \<Longrightarrow>
   get_route username auth s = (Json 500 (ErrorBody NotFound), s)"
  by (simp add: get_route_def tokens_missing)

text \<open>
  C3. The claim is that a \<open>NotFound\<close> of the account fetch reaches a
  token-authenticated caller of the listing as an error. The handler tests the
  authentication method before it looks at \<^verbatim>\<open>err\<close>: in the filtering branch it reads
  \<^verbatim>\<open>tokens.apiTokens\<close> although \<^verbatim>\<open>tokens\<close> is \<^verbatim>\<open>undefined\<close>, which throws, and no
  response is written. The same request with password authentication is answered 500
  with the error.
\<close>

theorem get_route_missing_account_token_auth:
  "get_route ''ghost'' \<lparr> auth_method = ''token'', idFromAuth = ''laptop'' \<rparr> store0 = (Uncaught, store0) \<and>
   get_route ''ghost'' \<lparr> auth_method = ''username/password'', idFromAuth = ''ghost'' \<rparr> store0 =
     (Json 500 (ErrorBody NotFound), store0)"
  by (simp add: get_route_def tokens_missing)

section \<open>Deleting a token\<close>

lemma deleteToken_no_map:
  "users s username = Some u \<Longrightarrow> apiTokens u = None \<Longrightarrow>
   deleteToken username tokenname s = (Threw, s)"
  by (simp add: deleteToken_def User_get_def)

lemma deleteToken_falsy:
  "users s username = Some u \<Longrightarrow> apiTokens u = Some m \<Longrightarrow> falsy (js_get m tokenname) \<Longrightarrow>
   deleteToken username tokenname s = (Failed TokenNotFound, s)"
  by (simp add: deleteToken_def User_get_def)

lemma deleteToken_truthy:
  "users s username = Some u \<Longrightarrow> apiTokens u = Some m \<Longrightarrow> \<not> falsy (js_get m tokenname) \<Longrightarrow>
   deleteToken username tokenname s =
     (case User_update username
             \<lparr> set_apiTokens = Some (AList.delete tokenname m), set_attrs = [] \<rparr> s of
        (Some err, s') \<Rightarrow> (Failed err, s')
      | (None, s') \<Rightarrow> (Succeeded (), s'))"
  by (simp add: deleteToken_def User_get_def)

lemma deleteToken_not_key:
  "users s username = Some u \<Longrightarrow> apiTokens u = Some m \<Longrightarrow> tokenname \<notin> fst ` set m \<Longrightarrow>
   tokenname \<notin> set Object_prototype_methods \<Longrightarrow> tokenname \<noteq> ''__proto__'' \<Longrightarrow>
   deleteToken username tokenname s = (Failed TokenNotFound, s)"
  by (simp add: deleteToken_falsy falsy_absent)

lemma deleteToken_map_present:
  "users s username = Some u \<Longrightarrow> apiTokens u = Some m \<Longrightarrow>
   fst (deleteToken username tokenname s) \<noteq> Threw"
  by (cases "falsy (js_get m tokenname)")
    (simp_all add: deleteToken_falsy deleteToken_truthy split: prod.splits option.splits)


text \<open>
  C4. The claim is that on every existing account the deletion of a name that is not a
  key of the token map fails with \<open>TokenNotFound\<close>. On an account whose document has no
  \<^verbatim>\<open>apiTokens\<close> field yet, \<^verbatim>\<open>User.deleteToken\<close> indexes \<^verbatim>\<open>undefined\<close>: a
  \<^verbatim>\<open>TypeError\<close> is thrown, the continuation is never called and the route writes no
  response, while \<^verbatim>\<open>User.tokens\<close> reports the empty map for the same account.
\<close>

theorem deleteToken_fresh_account:
  "deleteToken ''charlie'' ''missing'' store0 = (Threw, store0) \<and>
   delete_route ''charlie'' ''missing'' store0 = (Uncaught, store0) \<and>
   tokens ''charlie'' store0 = (Succeeded [], store0)"
  by (simp add: delete_route_def deleteToken_no_map [of store0 _ charlie]
      tokens_present [of store0 _ charlie] apiTokens_or_empty_def charlie_def)

section \<open>Adding a token\<close>

lemma newToken_operation: "js_set ''operation'' x [] = [(''operation'', x)]"
  by (simp add: js_set_empty)

lemma addToken_present:
  "users s username = Some u \<Longrightarrow>
   addToken username (Some k) g s =
     (case detect_collisions (apiTokens_or_empty u) (shd (uuids g)) (g\<lparr>uuids := stl (uuids g)\<rparr>) of
        (t, g') \<Rightarrow>
          (case User_update username
                  \<lparr> set_apiTokens = Some (js_set k t (apiTokens_or_empty u)), set_attrs = [] \<rparr> s of
             (Some err, s') \<Rightarrow> (Failed err, g', s')
           | (None, s') \<Rightarrow>
               (Succeeded (js_set k t
                   [(''operation'',
                     if k \<in> fst ` set (apiTokens_or_empty u) then ''update'' else ''insert'')]),
                g', s')))"
  by (simp add: addToken_def User_get_def uuid_v4_def Let_def typeof_string_key newToken_operation
      split: prod.splits option.splits)


lemma addToken_auto_name:
  "addToken username None g s =
   addToken username (Some (''gen_'' @ toString36 (shd (randoms g)))) (g\<lparr>randoms := stl (randoms g)\<rparr>) s"
  by (simp add: addToken_def Math_random_1e9_def)

lemma addToken_store:
  "users s username = Some u \<Longrightarrow>
   detect_collisions (apiTokens_or_empty u) (shd (uuids g)) (g\<lparr>uuids := stl (uuids g)\<rparr>) = (t, g') \<Longrightarrow>
   snd (snd (addToken username (Some k) g s)) =
     snd (User_update username
            \<lparr> set_apiTokens = Some (js_set k t (apiTokens_or_empty u)), set_attrs = [] \<rparr> s)"
  by (simp add: addToken_present split: prod.splits option.splits)


lemma addToken_ok:
  assumes "users s username = Some u" "\<not> failing s"
  shows "\<exists>t g'. addToken username (Some k) g s =
     (Succeeded (js_set k t
         [(''operation'', if k \<in> fst ` set (apiTokens_or_empty u) then ''update'' else ''insert'')]),
      g',
      s\<lparr>writes := writes s @
             [(username, \<lparr> set_apiTokens = Some (js_set k t (apiTokens_or_empty u)), set_attrs = [] \<rparr>)],
         users := (users s)(username \<mapsto> u\<lparr>apiTokens := Some (js_set k t (apiTokens_or_empty u))\<rparr>)\<rparr>)"
proof -
  obtain t g' where
    "detect_collisions (apiTokens_or_empty u) (shd (uuids g)) (g\<lparr>uuids := stl (uuids g)\<rparr>) = (t, g')"
    by (cases "detect_collisions (apiTokens_or_empty u) (shd (uuids g)) (g\<lparr>uuids := stl (uuids g)\<rparr>)")
  then show ?thesis
    using assms
    by (intro exI [of _ t] exI [of _ g']) (simp add: addToken_present User_update_ok merge_tokens_only)
qed

subsection \<open>The collision loop\<close>

text \<open>The loop ends with the last value drawn, or with the candidate it was given.\<close>

lemma detect_collisions_last:
  "fst (detect_collisions m token g) = last (token # replacement_draws m token (uuids g))"
proof (induction m arbitrary: token g)
  case Nil
  then show ?case by simp
next
  case (Cons e m)
  obtain key v where e: "e = (key, v)" by (cases e)
  show ?case
  proof (cases "v = token")
    case True
    from Cons.IH [of "shd (uuids g)" "g\<lparr>uuids := stl (uuids g)\<rparr>"] show ?thesis
      using True e by (simp add: uuid_v4_def)
  next
    case False
    from Cons.IH [of token g] show ?thesis using False e by simp
  qed
qed

lemma replacement_draws_no_hit: "token \<notin> snd ` set m \<Longrightarrow> replacement_draws m token us = []"
  by (induction m arbitrary: token us) auto

text \<open>
  The candidate stays outside the values already passed (\<open>A\<close>) and ends outside
  all values, as long as no value drawn in the loop is one of them.
\<close>

lemma replacement_draws_avoid:
  "token \<notin> A \<Longrightarrow> \<forall>r \<in> set (replacement_draws m token us). r \<notin> A \<union> snd ` set m \<Longrightarrow>
   last (token # replacement_draws m token us) \<notin> A \<union> snd ` set m"
proof (induction m arbitrary: token us A)
  case Nil
  then show ?case by simp
next
  case (Cons e m)
  obtain key v where e: "e = (key, v)" by (cases e)
  have vals: "A \<union> snd ` set (e # m) = insert v A \<union> snd ` set m"
    using e by auto
  show ?case
  proof (cases "v = token")
    case True
    have draws: "replacement_draws (e # m) token us = shd us # replacement_draws m (shd us) (stl us)"
      using True e by simp
    have all: "\<forall>r \<in> set (shd us # replacement_draws m (shd us) (stl us)). r \<notin> insert v A \<union> snd ` set m"
      using Cons.prems(2) unfolding draws vals .
    then have fresh: "shd us \<notin> insert v A"
      and later: "\<forall>r \<in> set (replacement_draws m (shd us) (stl us)). r \<notin> insert v A \<union> snd ` set m"
      by simp_all
    from Cons.IH [OF fresh later] show ?thesis
      unfolding draws vals by simp
  next
    case False
    have draws: "replacement_draws (e # m) token us = replacement_draws m token us"
      using False e by simp
    have keep: "token \<notin> insert v A" using False Cons.prems(1) by auto
    have later: "\<forall>r \<in> set (replacement_draws m token us). r \<notin> insert v A \<union> snd ` set m"
      using Cons.prems(2) unfolding draws vals .
    from Cons.IH [OF keep later] show ?thesis
      unfolding draws vals .
  qed
qed

lemma addToken_named_value:
  assumes acct: "users s username = Some u"
  shows "snd (snd (addToken username (Some k) g s)) =
           snd (User_update username
                  \<lparr> set_apiTokens =
                      Some (js_set k
                             (last (shd (uuids g) #
                                    replacement_draws (apiTokens_or_empty u) (shd (uuids g)) (stl (uuids g))))
                             (apiTokens_or_empty u)),
                    set_attrs = [] \<rparr> s)"
proof -
  let ?m = "apiTokens_or_empty u"
  let ?g = "g\<lparr>uuids := stl (uuids g)\<rparr>"
  obtain t g' where dc: "detect_collisions ?m (shd (uuids g)) ?g = (t, g')"
    by (cases "detect_collisions ?m (shd (uuids g)) ?g")
  have "t = last (shd (uuids g) # replacement_draws ?m (shd (uuids g)) (uuids ?g))"
    using detect_collisions_last [of ?m "shd (uuids g)" ?g] dc by simp
  then have t: "t = last (shd (uuids g) # replacement_draws ?m (shd (uuids g)) (stl (uuids g)))"
    by simp
  from addToken_store [OF acct dc] show ?thesis by (simp add: t)
qed

text \<open>
  C1, as amended. On an existing account \<^verbatim>\<open>User.addToken\<close> compares the fresh value
  once with each value of the token map, in enumeration order, and replaces it by a new
  draw whenever the two are equal; the scan is not repeated, so a replacement is
  compared with the later values only. The value accepted, which is the one written
  under the token name, is the last value drawn. It is the first draw when that
  collides with nothing. It differs from every existing value provided no replacement
  draw is itself an existing value, and under that proviso the map that is written keeps
  pairwise distinct values pairwise distinct.
\<close>

theorem addToken_value_fresh:
  assumes acct: "users s username = Some u"
  shows "(let m = apiTokens_or_empty u;
              draws = replacement_draws m (shd (uuids g)) (stl (uuids g));
              token = last (shd (uuids g) # draws);
              tokenname = (case tokenname_arg of
                             None \<Rightarrow> ''gen_'' @ toString36 (shd (randoms g))
                           | Some n \<Rightarrow> n)
          in snd (snd (addToken username tokenname_arg g s)) =
               snd (User_update username
                      \<lparr> set_apiTokens = Some (js_set tokenname token m), set_attrs = [] \<rparr> s) \<and>
             (shd (uuids g) \<notin> snd ` set m \<longrightarrow> draws = [] \<and> token = shd (uuids g)) \<and>
             ((\<forall>r \<in> set draws. r \<notin> snd ` set m) \<longrightarrow>
                token \<notin> snd ` set m \<and>
                (distinct (map snd m) \<longrightarrow> distinct (map snd (js_set tokenname token m)))))"
proof -
  let ?m = "apiTokens_or_empty u"
  let ?d = "replacement_draws ?m (shd (uuids g)) (stl (uuids g))"
  let ?t = "last (shd (uuids g) # ?d)"
  let ?k = "case tokenname_arg of None \<Rightarrow> ''gen_'' @ toString36 (shd (randoms g)) | Some n \<Rightarrow> n"
  have stored: "snd (snd (addToken username tokenname_arg g s)) =
      snd (User_update username \<lparr> set_apiTokens = Some (js_set ?k ?t ?m), set_attrs = [] \<rparr> s)"
  proof (cases tokenname_arg)
    case None
    from addToken_named_value [OF acct, of "''gen_'' @ toString36 (shd (randoms g))"
        "g\<lparr>randoms := stl (randoms g)\<rparr>"]
    show ?thesis by (simp add: None addToken_auto_name)
  next
    case (Some n)
    from addToken_named_value [OF acct, of n g] show ?thesis by (simp add: Some)
  qed
  have first: "shd (uuids g) \<notin> snd ` set ?m \<longrightarrow> ?d = [] \<and> ?t = shd (uuids g)"
    by (simp add: replacement_draws_no_hit)
  have fresh: "?t \<notin> snd ` set ?m" if "\<forall>r \<in> set ?d. r \<notin> snd ` set ?m"
    using replacement_draws_avoid [of "shd (uuids g)" "{}" ?m "stl (uuids g)"] that by simp
  have "(\<forall>r \<in> set ?d. r \<notin> snd ` set ?m) \<longrightarrow>
      ?t \<notin> snd ` set ?m \<and> (distinct (map snd ?m) \<longrightarrow> distinct (map snd (js_set ?k ?t ?m)))"
    using fresh by (simp add: distinct_values_js_set)
  with stored first show ?thesis by (simp add: Let_def)
qed

theorem addToken_value_fresh_witness:
  "users store0 ''juan'' = Some juan \<and>
   replacement_draws (apiTokens_or_empty juan) (shd (uuids rng1)) (stl (uuids rng1)) = [uuid_c] \<and>
   uuid_c \<notin> snd ` set (apiTokens_or_empty juan) \<and>
   users (snd (snd (addToken ''juan'' (Some ''deploy'') rng1 store0))) ''juan'' =
     Some (juan\<lparr>apiTokens := Some [(''ci'', uuid_a), (''laptop'', uuid_b), (''deploy'', uuid_c)]\<rparr>)"
  using addToken_value_fresh [of store0 "''juan''" juan rng1 "Some ''deploy''"]
  by (simp add: Let_def rng1_def juan_def apiTokens_or_empty_def User_update_def merge_patch_def
      js_set_def array_index_def)

text \<open>
  C1 as stated fails: \<open>juan\<close> holds the values \<open>uuid_a\<close> and \<open>uuid_b\<close>; the first
  draw is \<open>uuid_b\<close>, which passes the first entry and collides with the second; the
  replacement \<open>uuid_a\<close> is not compared with the first entry any more and is stored, so
  two tokens of the account share a value.
\<close>

theorem addToken_secondary_collision:
  "distinct (map snd (apiTokens_or_empty juan)) \<and>
   users (snd (snd (addToken ''juan'' (Some ''deploy'') rng0 store0))) ''juan'' =
     Some (juan\<lparr>apiTokens := Some [(''ci'', uuid_a), (''laptop'', uuid_b), (''deploy'', uuid_a)]\<rparr>) \<and>
   \<not> distinct (map snd [(''ci'', uuid_a), (''laptop'', uuid_b), (''deploy'', uuid_a)])"
  by (simp add: addToken_present [of store0 _ juan] rng0_def juan_def apiTokens_or_empty_def
      uuid_v4_def User_update_def Let_def merge_patch_def js_set_def array_index_def)

subsection \<open>Insert or update\<close>

lemma length_insert_index: "length (insert_index n k v obj) = Suc (length obj)"
  by (induction obj) (auto split: option.splits)

lemma length_js_set_new:
  "k \<notin> fst ` set obj \<Longrightarrow> k \<noteq> ''__proto__'' \<Longrightarrow> length (js_set k v obj) = Suc (length obj)"
  by (simp add: js_set_def length_insert_index split: option.splits)

text \<open>
  For a token name other than \<^verbatim>\<open>operation\<close> and \<^verbatim>\<open>__proto__\<close> the result of a
  successful call has two properties: the operation kind, decided on the map as it was
  read, and the token.
\<close>

lemma newToken_properties:
  assumes "k \<noteq> ''operation''" "k \<noteq> ''__proto__''"
  shows "map_of (js_set k t [(''operation'', x)]) ''operation'' = Some x"
    and "map_of (js_set k t [(''operation'', x)]) k = Some t"
    and "length (js_set k t [(''operation'', x)]) = 2"
  using assms by (simp_all add: map_of_js_set length_js_set_new)

lemma addToken_operation_kind:
  assumes "users s username = Some u" "\<not> failing s" "k \<noteq> ''operation''" "k \<noteq> ''__proto__''"
  shows "\<exists>r t. fst (addToken username (Some k) g s) = Succeeded r \<and> length r = 2 \<and>
           map_of r ''operation'' =
             Some (if k \<in> fst ` set (apiTokens_or_empty u) then ''update'' else ''insert'') \<and>
           map_of r k = Some t"
proof -
  from addToken_ok [OF assms(1,2), of k g] obtain t g' s' where
    "addToken username (Some k) g s =
       (Succeeded (js_set k t
          [(''operation'', if k \<in> fst ` set (apiTokens_or_empty u) then ''update'' else ''insert'')]),
        g', s')"
    by blast
  then show ?thesis by (simp add: newToken_properties [OF assms(3,4)])
qed

text \<open>
  C6. The claim is that every call of \<^verbatim>\<open>User.addToken\<close> reports the operation kind
  \<^verbatim>\<open>"insert"\<close> or \<^verbatim>\<open>"update"\<close>. The result object receives the token under its own
  name after \<^verbatim>\<open>operation\<close> was set, so for a token named \<^verbatim>\<open>operation\<close> the
  assignment \<^verbatim>\<open>newToken[tokenname] = token\<close> overwrites the kind: the call on
  \<open>charlie\<close>, who has no such token, reports the token value as the operation. For
  the name \<^verbatim>\<open>deploy\<close> the same call reports \<^verbatim>\<open>"insert"\<close>.
\<close>

theorem addToken_named_operation:
  "''operation'' \<notin> fst ` set (apiTokens_or_empty charlie) \<and>
   fst (addToken ''charlie'' (Some ''operation'') rng0 store0) = Succeeded [(''operation'', uuid_b)] \<and>
   fst (addToken ''charlie'' (Some ''deploy'') rng0 store0) =
     Succeeded [(''operation'', ''insert''), (''deploy'', uuid_b)]"
  by (simp add: addToken_present [of store0 _ charlie] rng0_def charlie_def apiTokens_or_empty_def
      uuid_v4_def User_update_def Let_def js_set_def array_index_def)




subsection \<open>Accounts without a token map\<close>

lemma addToken_no_map:
  "users s username = Some u \<Longrightarrow> apiTokens u = None \<Longrightarrow>
   snd (snd (addToken username (Some k) g s)) =
     snd (User_update username
            \<lparr> set_apiTokens = Some (js_set k (shd (uuids g)) []), set_attrs = [] \<rparr> s)"
  by (simp add: addToken_present apiTokens_or_empty_def split: prod.splits option.splits)

text \<open>
  With a token map, a name the map does not hold but \<^verbatim>\<open>Object.prototype\<close> defines
  passes the test of \<^verbatim>\<open>User.deleteToken\<close>: the map is written back as it was and
  the call succeeds.
\<close>

lemma deleteToken_inherited:
  assumes "users s username = Some u" "apiTokens u = Some m" "\<not> failing s"
    and "tokenname \<notin> fst ` set m"
    and "tokenname \<in> set Object_prototype_methods \<or> tokenname = ''__proto__''"
  shows "deleteToken username tokenname s =
           (Succeeded (),
            s\<lparr>writes := writes s @ [(username, \<lparr> set_apiTokens = Some m, set_attrs = [] \<rparr>)],
              users := (users s)(username \<mapsto> u\<lparr>apiTokens := Some m\<rparr>)\<rparr>)"
proof -
  have "\<not> falsy (js_get m tokenname)" using assms(4,5) by (rule truthy_inherited)
  then show ?thesis
    using assms by (simp add: deleteToken_truthy User_update_ok merge_tokens_only)
qed

text \<open>
  C10. On an existing account whose document has no \<^verbatim>\<open>apiTokens\<close> field,
  \<^verbatim>\<open>User.deleteToken\<close> indexes the absent map: for every token name the call throws
  and leaves the store as it was, where \<^verbatim>\<open>User.tokens\<close> answers with the empty map
  and \<^verbatim>\<open>User.addToken\<close> assigns the new token to an empty object and writes that,
  both through \<^verbatim>\<open>user.apiTokens || {}\<close>. When the document carries a token map the
  test is defined: the call does not throw, and it answers \<open>TokenNotFound\<close>, with no
  write, whenever \<^verbatim>\<open>apiTokens[tokenname]\<close> is falsy, which is the case for every name
  that neither the map nor \<^verbatim>\<open>Object.prototype\<close> holds.
\<close>

theorem deleteToken_needs_token_map:
  "users s username = Some u \<Longrightarrow>
   (apiTokens u = None \<longrightarrow>
      deleteToken username tokenname s = (Threw, s) \<and>
      tokens username s = (Succeeded [], s) \<and>
      snd (snd (addToken username (Some tokenname) g s)) =
        snd (User_update username
               \<lparr> set_apiTokens = Some (js_set tokenname (shd (uuids g)) []), set_attrs = [] \<rparr> s)) \<and>
   (\<forall>m. apiTokens u = Some m \<longrightarrow>
      fst (deleteToken username tokenname s) \<noteq> Threw \<and>
      (falsy (js_get m tokenname) \<longrightarrow>
         deleteToken username tokenname s = (Failed TokenNotFound, s)) \<and>
      (tokenname \<notin> fst ` set m \<longrightarrow> tokenname \<notin> set Object_prototype_methods \<longrightarrow>
       tokenname \<noteq> ''__proto__'' \<longrightarrow>
         deleteToken username tokenname s = (Failed TokenNotFound, s)))"
  by (simp add: deleteToken_no_map deleteToken_not_key deleteToken_falsy deleteToken_map_present
      addToken_no_map tokens_present apiTokens_or_empty_def)

theorem deleteToken_needs_token_map_witness:
  "users store0 ''charlie'' = Some charlie \<and> apiTokens charlie = None \<and>
   deleteToken ''charlie'' ''ci'' store0 = (Threw, store0) \<and>
   tokens ''charlie'' store0 = (Succeeded [], store0) \<and>
   users (snd (snd (addToken ''charlie'' (Some ''ci'') rng0 store0))) ''charlie'' =
     Some (charlie\<lparr>apiTokens := Some [(''ci'', uuid_b)]\<rparr>) \<and>
   users store0 ''juan'' = Some juan \<and>
   apiTokens juan = Some [(''ci'', uuid_a), (''laptop'', uuid_b)] \<and>
   deleteToken ''juan'' ''deploy'' store0 = (Failed TokenNotFound, store0)"
  using deleteToken_needs_token_map [of store0 "''charlie''" charlie "''ci''" rng0]
    deleteToken_needs_token_map [of store0 "''juan''" juan "''deploy''" rng0]
  by (simp add: charlie_def juan_def rng0_def User_update_def Let_def merge_patch_def js_set_def
      array_index_def Object_prototype_methods_def)

section \<open>Generated token names\<close>

lemma digit36_in: "d < 36 \<Longrightarrow> digit36 d \<in> set ''0123456789abcdefghijklmnopqrstuvwxyz''"
  unfolding digit36_def by (rule nth_mem) simp

lemma digit36_value_digit36: "d < 36 \<Longrightarrow> digit36_value (digit36 d) = d"
proof -
  let ?A = "''0123456789abcdefghijklmnopqrstuvwxyz''"
  assume d: "d < 36"
  have len: "length ?A = 36" by simp
  have dist: "distinct ?A" by simp
  have "takeWhile (\<lambda>c. c \<noteq> ?A ! d) ?A = take d ?A"
  proof (rule takeWhile_eq_take_P_nth)
    fix i
    assume "i < d" "i < length ?A"
    then have "i \<noteq> d" "i < length ?A" "d < length ?A" using d len by simp_all
    then show "?A ! i \<noteq> ?A ! d"
      using nth_eq_iff_index_eq [OF dist, of i d] by blast
  next
    show "\<not> ?A ! d \<noteq> ?A ! d" by simp
  qed
  then have "length (takeWhile (\<lambda>c. c \<noteq> ?A ! d) ?A) = d"
    using d by (simp only: length_take len)
  then show ?thesis by (simp only: digit36_value_def digit36_def)
qed

lemma parseInt36_snoc: "parseInt36 (k @ [c]) = 36 * parseInt36 k + digit36_value c"
  by (simp add: parseInt36_def)

lemma parseInt36_toString36: "parseInt36 (toString36 n) = n"
proof (induction n rule: toString36.induct)
  case (1 n)
  show ?case
  proof (cases "n < 36")
    case True
    then show ?thesis
      using parseInt36_snoc [of "[]" "digit36 n"]
      by (subst toString36.simps) (simp add: digit36_value_digit36 parseInt36_def)
  next
    case False
    have "parseInt36 (toString36 (n div 36) @ [digit36 (n mod 36)]) = 36 * (n div 36) + n mod 36"
      using False "1.IH" by (simp only: parseInt36_snoc) (simp add: digit36_value_digit36)
    with False show ?thesis by (subst toString36.simps) simp
  qed
qed

lemma toString36_digits: "set (toString36 n) \<subseteq> set ''0123456789abcdefghijklmnopqrstuvwxyz''"
proof (induction n rule: toString36.induct)
  case (1 n)
  show ?case
  proof (cases "n < 36")
    case True
    then show ?thesis using digit36_in [of n] by (subst toString36.simps) simp
  next
    case False
    have "digit36 (n mod 36) \<in> set ''0123456789abcdefghijklmnopqrstuvwxyz''"
      by (rule digit36_in) simp
    with False "1.IH" show ?thesis by (subst toString36.simps) simp
  qed
qed

lemma toString36_nonempty: "toString36 n \<noteq> []"
  by (subst toString36.simps) simp

lemma toString36_length: "n < 36 ^ Suc d \<Longrightarrow> length (toString36 n) \<le> Suc d"
proof (induction d arbitrary: n)
  case 0
  then show ?case by (subst toString36.simps) simp
next
  case (Suc d)
  show ?case
  proof (cases "n < 36")
    case True
    then show ?thesis by (subst toString36.simps) simp
  next
    case False
    have "n div 36 < 36 ^ Suc d"
      using Suc.prems by (simp add: less_mult_imp_div_less mult.commute)
    then have "length (toString36 (n div 36)) \<le> Suc d" by (rule Suc.IH)
    with False show ?thesis by (subst toString36.simps) simp
  qed
qed

lemma toString36_short: "n < 10 ^ 9 \<Longrightarrow> length (toString36 n) \<le> 6"
proof -
  assume "n < 10 ^ 9"
  then have "n < 36 ^ Suc 5" by simp
  then have "length (toString36 n) \<le> Suc 5" by (rule toString36_length)
  then show ?thesis by simp
qed

lemma addOrUpdateToken_auto_name:
  "addOrUpdateToken username None g s =
   addOrUpdateToken username (Some (''token_'' @ toString36 (shd (randoms g))))
     (g\<lparr>randoms := stl (randoms g)\<rparr>) s"
  by (simp add: addOrUpdateToken_def Math_random_1e9_def)

lemma addOrUpdateToken_response:
  "fst (addOrUpdateToken username (Some k) g s) =
     (case fst (addToken username (Some k) g s) of
        Failed err \<Rightarrow> Json 500 (ErrorBody err)
      | Succeeded newToken \<Rightarrow> Json 201 (NewTokenBody newToken)
      | Threw \<Rightarrow> Uncaught)"
proof -
  obtain r g' s' where res: "addToken username (Some k) g s = (r, g', s')"
    by (cases "addToken username (Some k) g s")
  then show ?thesis by (cases r) (simp_all add: addOrUpdateToken_def)
qed

lemma addOrUpdateToken_store:
  "snd (snd (addOrUpdateToken username (Some k) g s)) = snd (snd (addToken username (Some k) g s))"
proof -
  obtain r g' s' where res: "addToken username (Some k) g s = (r, g', s')"
    by (cases "addToken username (Some k) g s")
  then show ?thesis by (cases r) (simp_all add: addOrUpdateToken_def)
qed

text \<open>A generated name is an ordinary property name, and it is not \<^verbatim>\<open>operation\<close>.\<close>

lemma addToken_prefixed:
  assumes acct: "users s username = Some u" and ok: "\<not> failing s"
    and c: "c \<notin> set ''0123456789''" and name: "c # k \<noteq> ''operation''" "c # k \<noteq> ''__proto__''"
  shows "\<exists>t. fst (addToken username (Some (c # k)) g s) =
               Succeeded [(''operation'',
                           if c # k \<in> fst ` set (apiTokens_or_empty u) then ''update'' else ''insert''),
                          (c # k, t)] \<and>
             users (snd (snd (addToken username (Some (c # k)) g s))) username =
               Some (u\<lparr>apiTokens := Some (AList.update (c # k) t (apiTokens_or_empty u))\<rparr>)"
proof -
  have plain: "js_set (c # k) v obj = AList.update (c # k) v obj" for v and obj :: "(string \<times> string) list"
    using array_index_letter [OF c] name(2) by (rule js_set_plain)
  from addToken_ok [OF acct ok, of "c # k" g] obtain t g' where
    "addToken username (Some (c # k)) g s =
       (Succeeded (js_set (c # k) t
          [(''operation'', if c # k \<in> fst ` set (apiTokens_or_empty u) then ''update'' else ''insert'')]),
        g',
        s\<lparr>writes := writes s @
             [(username, \<lparr> set_apiTokens = Some (js_set (c # k) t (apiTokens_or_empty u)), set_attrs = [] \<rparr>)],
           users := (users s)(username \<mapsto> u\<lparr>apiTokens := Some (js_set (c # k) t (apiTokens_or_empty u))\<rparr>)\<rparr>)"
    by blast
  then show ?thesis
    using name(1) by (intro exI [of _ t]) (auto simp: plain)
qed

text \<open>
  C8. Called without a token name, \<^verbatim>\<open>User.addToken\<close> proceeds as for the name
  \<^verbatim>\<open>gen_\<close> followed by the base-36 digits of the random integer, and the route
  handler \<^verbatim>\<open>addOrUpdateToken\<close> as for the name \<^verbatim>\<open>token_\<close> followed by such
  digits, which it passes to \<^verbatim>\<open>User.addToken\<close> as an explicit name. The random
  integer is below \<open>10\<^sup>9\<close>, so the fragment has between one and six characters, all of
  them digits or lower-case letters, and read in base 36 it gives the integer back. A
  name generated by the route never equals one generated by the resource. On an existing
  account whose store accepts the write, the result of either call holds the token under
  the generated name, next to the operation kind, and the token map stored holds it
  under that name.
\<close>

theorem auto_names:
  assumes small: "shd (randoms g) < 10 ^ 9"
  shows "(let fragment = toString36 (shd (randoms g)); g' = g\<lparr>randoms := stl (randoms g)\<rparr>
          in parseInt36 fragment = shd (randoms g) \<and>
             fragment \<noteq> [] \<and> length fragment \<le> 6 \<and>
             set fragment \<subseteq> set ''0123456789abcdefghijklmnopqrstuvwxyz'' \<and>
             addToken username None g s = addToken username (Some (''gen_'' @ fragment)) g' s \<and>
             addOrUpdateToken username None g s =
               addOrUpdateToken username (Some (''token_'' @ fragment)) g' s \<and>
             (\<forall>r. ''token_'' @ fragment \<noteq> ''gen_'' @ toString36 r) \<and>
             (\<forall>u. users s username = Some u \<longrightarrow> \<not> failing s \<longrightarrow>
                (\<exists>t. fst (addToken username None g s) =
                        Succeeded [(''operation'',
                                    if ''gen_'' @ fragment \<in> fst ` set (apiTokens_or_empty u)
                                    then ''update'' else ''insert''),
                                   (''gen_'' @ fragment, t)] \<and>
                      users (snd (snd (addToken username None g s))) username =
                        Some (u\<lparr>apiTokens :=
                                 Some (AList.update (''gen_'' @ fragment) t (apiTokens_or_empty u))\<rparr>)) \<and>
                (\<exists>t. fst (addOrUpdateToken username None g s) =
                        Json 201 (NewTokenBody
                          [(''operation'',
                            if ''token_'' @ fragment \<in> fst ` set (apiTokens_or_empty u)
                            then ''update'' else ''insert''),
                           (''token_'' @ fragment, t)]) \<and>
                      users (snd (snd (addOrUpdateToken username None g s))) username =
                        Some (u\<lparr>apiTokens :=
                                 Some (AList.update (''token_'' @ fragment) t (apiTokens_or_empty u))\<rparr>))))"
proof -
  let ?f = "toString36 (shd (randoms g))"
  let ?g = "g\<lparr>randoms := stl (randoms g)\<rparr>"
  have gen: "addToken username None g s = addToken username (Some (''gen_'' @ ?f)) ?g s"
    by (rule addToken_auto_name)
  have tok: "addOrUpdateToken username None g s = addOrUpdateToken username (Some (''token_'' @ ?f)) ?g s"
    by (rule addOrUpdateToken_auto_name)
  have stored: "\<exists>t. fst (addToken username None g s) =
                        Succeeded [(''operation'',
                                    if ''gen_'' @ ?f \<in> fst ` set (apiTokens_or_empty u)
                                    then ''update'' else ''insert''),
                                   (''gen_'' @ ?f, t)] \<and>
                      users (snd (snd (addToken username None g s))) username =
                        Some (u\<lparr>apiTokens := Some (AList.update (''gen_'' @ ?f) t (apiTokens_or_empty u))\<rparr>)"
    if acct: "users s username = Some u" and ok: "\<not> failing s" for u
    using addToken_prefixed [OF acct ok, of "CHR ''g''" "''en_'' @ ?f" ?g]
    by (simp add: gen)
  have answered: "\<exists>t. fst (addOrUpdateToken username None g s) =
                        Json 201 (NewTokenBody
                          [(''operation'',
                            if ''token_'' @ ?f \<in> fst ` set (apiTokens_or_empty u)
                            then ''update'' else ''insert''),
                           (''token_'' @ ?f, t)]) \<and>
                      users (snd (snd (addOrUpdateToken username None g s))) username =
                        Some (u\<lparr>apiTokens := Some (AList.update (''token_'' @ ?f) t (apiTokens_or_empty u))\<rparr>)"
    if acct: "users s username = Some u" and ok: "\<not> failing s" for u
  proof -
    from addToken_prefixed [OF acct ok, of "CHR ''t''" "''oken_'' @ ?f" ?g] obtain t where
      result: "fst (addToken username (Some (''token_'' @ ?f)) ?g s) =
          Succeeded [(''operation'',
                      if ''token_'' @ ?f \<in> fst ` set (apiTokens_or_empty u)
                      then ''update'' else ''insert''),
                     (''token_'' @ ?f, t)]"
      and written: "users (snd (snd (addToken username (Some (''token_'' @ ?f)) ?g s))) username =
          Some (u\<lparr>apiTokens := Some (AList.update (''token_'' @ ?f) t (apiTokens_or_empty u))\<rparr>)"
      by auto
    show ?thesis
      by (intro exI [of _ t])
        (simp only: tok addOrUpdateToken_response addOrUpdateToken_store result written outcome.case
          simp_thms)
  qed
  show ?thesis
    unfolding Let_def
  proof (intro conjI allI impI)
    show "parseInt36 ?f = shd (randoms g)" by (rule parseInt36_toString36)
    show "?f \<noteq> []" by (rule toString36_nonempty)
    show "length ?f \<le> 6" using small by (rule toString36_short)
    show "set ?f \<subseteq> set ''0123456789abcdefghijklmnopqrstuvwxyz''" by (rule toString36_digits)
    show "addToken username None g s = addToken username (Some (''gen_'' @ ?f)) ?g s" by (rule gen)
    show "addOrUpdateToken username None g s = addOrUpdateToken username (Some (''token_'' @ ?f)) ?g s"
      by (rule tok)
    show "''token_'' @ ?f \<noteq> ''gen_'' @ toString36 r" for r by simp
  next
    fix u
    assume "users s username = Some u" "\<not> failing s"
    then show "\<exists>t. fst (addToken username None g s) =
                        Succeeded [(''operation'',
                                    if ''gen_'' @ ?f \<in> fst ` set (apiTokens_or_empty u)
                                    then ''update'' else ''insert''),
                                   (''gen_'' @ ?f, t)] \<and>
                      users (snd (snd (addToken username None g s))) username =
                        Some (u\<lparr>apiTokens := Some (AList.update (''gen_'' @ ?f) t (apiTokens_or_empty u))\<rparr>)"
      by (rule stored)
  next
    fix u
    assume "users s username = Some u" "\<not> failing s"
    then show "\<exists>t. fst (addOrUpdateToken username None g s) =
                        Json 201 (NewTokenBody
                          [(''operation'',
                            if ''token_'' @ ?f \<in> fst ` set (apiTokens_or_empty u)
                            then ''update'' else ''insert''),
                           (''token_'' @ ?f, t)]) \<and>
                      users (snd (snd (addOrUpdateToken username None g s))) username =
                        Some (u\<lparr>apiTokens := Some (AList.update (''token_'' @ ?f) t (apiTokens_or_empty u))\<rparr>)"
      by (rule answered)
  qed
qed

theorem auto_names_witness:
  "shd (randoms rng0) < 10 ^ 9 \<and>
   toString36 (shd (randoms rng0)) = ''21i3v9'' \<and>
   parseInt36 ''21i3v9'' = 123456789 \<and>
   users store0 ''charlie'' = Some charlie \<and> \<not> failing store0 \<and>
   fst (addToken ''charlie'' None rng0 store0) =
     Succeeded [(''operation'', ''insert''), (''gen_21i3v9'', uuid_b)] \<and>
   users (snd (snd (addToken ''charlie'' None rng0 store0))) ''charlie'' =
     Some (charlie\<lparr>apiTokens := Some [(''gen_21i3v9'', uuid_b)]\<rparr>) \<and>
   fst (addOrUpdateToken ''charlie'' None rng0 store0) =
     Json 201 (NewTokenBody [(''operation'', ''insert''), (''token_21i3v9'', uuid_b)]) \<and>
   users (snd (snd (addOrUpdateToken ''charlie'' None rng0 store0))) ''charlie'' =
     Some (charlie\<lparr>apiTokens := Some [(''token_21i3v9'', uuid_b)]\<rparr>)"
proof -
  let ?g = "rng0\<lparr>randoms := stl (randoms rng0)\<rparr>"
  have r: "shd (randoms rng0) = 123456789" by (simp add: rng0_def)
  have t: "toString36 123456789 = ''21i3v9''" by (simp add: toString36.simps digit36_def)
  have small: "shd (randoms rng0) < 10 ^ 9" by (simp add: r)
  note names = auto_names [OF small, of "''charlie''" store0]
  from names have roundtrip: "parseInt36 (toString36 (shd (randoms rng0))) = shd (randoms rng0)"
    by (simp add: Let_def)
  from names have gen: "addToken ''charlie'' None rng0 store0 =
      addToken ''charlie'' (Some ''gen_21i3v9'') ?g store0"
    and tok: "addOrUpdateToken ''charlie'' None rng0 store0 =
      addOrUpdateToken ''charlie'' (Some ''token_21i3v9'') ?g store0"
    by (simp_all add: Let_def r t)
  have add: "addToken ''charlie'' (Some (CHR ''g'' # k)) ?g store0 =
      (Succeeded [(''operation'', ''insert''), (CHR ''g'' # k, uuid_b)],
       ?g\<lparr>uuids := stl (uuids rng0)\<rparr>,
       store0\<lparr>writes := [(''charlie'', \<lparr> set_apiTokens = Some [(CHR ''g'' # k, uuid_b)], set_attrs = [] \<rparr>)],
              users := (users store0)(''charlie'' \<mapsto> charlie\<lparr>apiTokens := Some [(CHR ''g'' # k, uuid_b)]\<rparr>)\<rparr>)"
    for k
    by (simp add: addToken_present [of store0 _ charlie] charlie_def apiTokens_or_empty_def
        User_update_def Let_def merge_patch_def rng0_def uuid_v4_def js_set_def array_index_def)
  have add': "addToken ''charlie'' (Some (CHR ''t'' # k)) ?g store0 =
      (Succeeded [(''operation'', ''insert''), (CHR ''t'' # k, uuid_b)],
       ?g\<lparr>uuids := stl (uuids rng0)\<rparr>,
       store0\<lparr>writes := [(''charlie'', \<lparr> set_apiTokens = Some [(CHR ''t'' # k, uuid_b)], set_attrs = [] \<rparr>)],
              users := (users store0)(''charlie'' \<mapsto> charlie\<lparr>apiTokens := Some [(CHR ''t'' # k, uuid_b)]\<rparr>)\<rparr>)"
    for k
    by (simp add: addToken_present [of store0 _ charlie] charlie_def apiTokens_or_empty_def
        User_update_def Let_def merge_patch_def rng0_def uuid_v4_def js_set_def array_index_def)
  show ?thesis
    using small roundtrip
    by (simp add: gen tok r t add add' addOrUpdateToken_response addOrUpdateToken_store)
qed

section \<open>What is written\<close>













end
